theory Spec2Isabelle
  imports Main
begin

section \<open>Values of the platform\<close>

text \<open>
  Strings are byte strings: a text is represented by its UTF-8 bytes, and a \<open>Buffer\<close> holds
  bytes too. Thrown values are errors with a message.
\<close>

datatype js_error = Error string | TypeError string | RangeError string | SyntaxError string

fun message :: "js_error \<Rightarrow> string" where
  "message (Error m) = m"
| "message (TypeError m) = m"
| "message (RangeError m) = m"
| "message (SyntaxError m) = m"

text \<open>
  \<open>String.prototype.toLowerCase\<close>, on the ASCII letters (header names are ASCII tokens);
  every other byte is kept.
\<close>

definition lower_char :: "char \<Rightarrow> char" where
  "lower_char c =
     (let n = (of_char c :: nat) in if 65 \<le> n \<and> n \<le> 90 then char_of (n + 32) else c)"

definition toLowerCase :: "string \<Rightarrow> string" where
  "toLowerCase s = map lower_char s"

text \<open>A number in a template string: an integer, in decimal.\<close>

fun show_nat :: "nat \<Rightarrow> string" where
  "show_nat n =
     (if n < 10 then [char_of (48 + n)] else show_nat (n div 10) @ [char_of (48 + n mod 10)])"

declare show_nat.simps [simp del]

definition show_int :: "int \<Rightarrow> string" where
  "show_int i = (if i < 0 then CHR ''-'' # show_nat (nat (- i)) else show_nat (nat i))"

section \<open>The built-in Map, keyed by strings\<close>

text \<open>
  A JavaScript \<open>Map\<close> keeps its entries in insertion order; \<open>set\<close> on a present key
  replaces the value in place, on an absent key it adds the entry at the end.
\<close>

type_synonym js_map = "(string \<times> string) list"

fun Map_set :: "js_map \<Rightarrow> string \<Rightarrow> string \<Rightarrow> js_map" where
  "Map_set [] k v = [(k, v)]"
| "Map_set ((k', v') # m) k v = (if k' = k then (k, v) # m else (k', v') # Map_set m k v)"

definition Map_get :: "js_map \<Rightarrow> string \<Rightarrow> string option" where
  "Map_get m k = map_of m k"

definition Map_has :: "js_map \<Rightarrow> string \<Rightarrow> bool" where
  "Map_has m k = (map_of m k \<noteq> None)"

definition Map_delete :: "js_map \<Rightarrow> string \<Rightarrow> js_map" where
  "Map_delete m k = filter (\<lambda>e. fst e \<noteq> k) m"

section \<open>Headers\<close>

record Headers =
  priv_headers :: js_map

text \<open>An item of an array given to the constructor: a tuple or a \<open>{name, value}\<close> record.\<close>

datatype header_item = Tuple string string | HeaderPair string string

datatype HeadersInit =
    FromHeaders Headers
  | FromArray "header_item list"
  | FromRecord "(string \<times> string) list"

fun item_name :: "header_item \<Rightarrow> string" where
  "item_name (Tuple n v) = n"
| "item_name (HeaderPair n v) = n"

fun item_value :: "header_item \<Rightarrow> string" where
  "item_value (Tuple n v) = v"
| "item_value (HeaderPair n v) = v"

definition set_lowered :: "js_map \<Rightarrow> string \<times> string \<Rightarrow> js_map" where
  "set_lowered m e = Map_set m (toLowerCase (fst e)) (snd e)"

definition Headers_new :: "HeadersInit option \<Rightarrow> Headers" where
  "Headers_new init =
     (case init of
        None \<Rightarrow> \<lparr>priv_headers = []\<rparr>
      | Some (FromHeaders hs) \<Rightarrow> \<lparr>priv_headers = foldl set_lowered [] (priv_headers hs)\<rparr>
      | Some (FromArray items) \<Rightarrow>
          \<lparr>priv_headers = foldl set_lowered [] (map (\<lambda>i. (item_name i, item_value i)) items)\<rparr>
      | Some (FromRecord entries) \<Rightarrow> \<lparr>priv_headers = foldl set_lowered [] entries\<rparr>)"

definition Headers_append :: "Headers \<Rightarrow> string \<Rightarrow> string \<Rightarrow> Headers" where
  "Headers_append h name val =
     (let key = toLowerCase name; existing = Map_get (priv_headers h) key in
      case existing of
        None \<Rightarrow> h\<lparr>priv_headers := Map_set (priv_headers h) key val\<rparr>
      | Some e \<Rightarrow>
          if e \<noteq> [] then h\<lparr>priv_headers := Map_set (priv_headers h) key (e @ '', '' @ val)\<rparr>
          else h\<lparr>priv_headers := Map_set (priv_headers h) key val\<rparr>)"

definition Headers_delete :: "Headers \<Rightarrow> string \<Rightarrow> Headers" where
  "Headers_delete h name = h\<lparr>priv_headers := Map_delete (priv_headers h) (toLowerCase name)\<rparr>"

definition Headers_get :: "Headers \<Rightarrow> string \<Rightarrow> string option" where
  "Headers_get h name = Map_get (priv_headers h) (toLowerCase name)"

definition Headers_has :: "Headers \<Rightarrow> string \<Rightarrow> bool" where
  "Headers_has h name = Map_has (priv_headers h) (toLowerCase name)"

definition Headers_set :: "Headers \<Rightarrow> string \<Rightarrow> string \<Rightarrow> Headers" where
  "Headers_set h name val = h\<lparr>priv_headers := Map_set (priv_headers h) (toLowerCase name) val\<rparr>"

record JsHeader =
  jh_name :: string
  jh_value :: string

definition toJsHeaders :: "Headers \<Rightarrow> JsHeader list" where
  "toJsHeaders h = map (\<lambda>e. \<lparr>jh_name = fst e, jh_value = snd e\<rparr>) (priv_headers h)"

section \<open>Buffers in a store\<close>

text \<open>
  A \<open>Buffer\<close> is a mutable array of bytes with an identity: two references may name the same
  bytes. The store maps addresses to the bytes they hold; \<open>next_addr\<close> is the first
  address not yet handed out.
\<close>

type_synonym Buffer = "char list"
type_synonym addr = nat

record heap =
  cells :: "addr \<Rightarrow> Buffer"
  next_addr :: addr

definition alloc :: "heap \<Rightarrow> Buffer \<Rightarrow> addr \<times> heap" where
  "alloc h b = (next_addr h, h\<lparr>cells := (cells h)(next_addr h := b), next_addr := Suc (next_addr h)\<rparr>)"

text \<open>\<open>buf[i] = c\<close>, a write by whoever holds a reference to the buffer.\<close>

definition Buffer_write :: "heap \<Rightarrow> addr \<Rightarrow> nat \<Rightarrow> char \<Rightarrow> heap" where
  "Buffer_write h a i c =
     (if i < length (cells h a) then h\<lparr>cells := (cells h)(a := (cells h a)[i := c])\<rparr> else h)"

text \<open>
  The body types of the source: a string, a Buffer, an ArrayBuffer or a Uint8Array, the last
  three by reference.
\<close>

datatype BodyInit = BodyString string | BodyBuffer addr | BodyArrayBuffer addr | BodyUint8Array addr

text \<open>
  \<open>Buffer.from\<close>: a string is encoded into new bytes, a Buffer or a Uint8Array is copied
  into new bytes, an ArrayBuffer is viewed (the same bytes, no copy).
\<close>

definition Buffer_from :: "heap \<Rightarrow> BodyInit \<Rightarrow> addr \<times> heap" where
  "Buffer_from h b =
     (case b of
        BodyString s \<Rightarrow> alloc h s
      | BodyBuffer a \<Rightarrow> alloc h (cells h a)
      | BodyArrayBuffer a \<Rightarrow> (a, h)
      | BodyUint8Array a \<Rightarrow> alloc h (cells h a))"

text \<open>\<open>buf.toString("utf-8")\<close>: the text of the bytes.\<close>

definition Buffer_toString :: "Buffer \<Rightarrow> string" where
  "Buffer_toString b = b"

text \<open>What a body accessor returns: a text, a new ArrayBuffer, a Blob, or a parsed value.\<close>

datatype 'v body_value =
    TextValue string
  | ArrayBufferValue addr
  | BlobValue Buffer
  | JsonValue 'v

datatype accessor = Text | ArrayBuffer | Blob | Json

definition body_consumed :: js_error where
  "body_consumed = TypeError ''Body has already been consumed''"

section \<open>Request\<close>

record Request =
  req_method :: string
  req_url :: string
  req_headers :: Headers
  req_body :: "addr option"
  req_bodyUsed :: bool

record RequestInit =
  qi_method :: "string option"
  qi_headers :: "HeadersInit option"
  qi_body :: "BodyInit option"

datatype RequestInput = UrlInput string | RequestInput Request

text \<open>
  The truthiness of \<open>init?.body\<close>: an absent body is falsy, and of the bodies present
  only the empty string is.
\<close>

fun body_truthy :: "BodyInit \<Rightarrow> bool" where
  "body_truthy (BodyString s) = (s \<noteq> [])"
| "body_truthy b = True"

definition Request_new :: "heap \<Rightarrow> RequestInput \<Rightarrow> RequestInit option \<Rightarrow> Request \<times> heap" where
  "Request_new h input init =
     (let init_method = (case init of None \<Rightarrow> None | Some i \<Rightarrow> qi_method i);
          init_headers = (case init of None \<Rightarrow> None | Some i \<Rightarrow> qi_headers i);
          init_body = (case init of None \<Rightarrow> None | Some i \<Rightarrow> qi_body i)
      in case input of
        RequestInput r \<Rightarrow>
          (\<lparr>req_method = (case init_method of None \<Rightarrow> req_method r | Some m \<Rightarrow> m),
            req_url = req_url r,
            req_headers =
              Headers_new (case init_headers of None \<Rightarrow> Some (FromHeaders (req_headers r))
                           | Some hs \<Rightarrow> Some hs),
            req_body = req_body r,
            req_bodyUsed = False\<rparr>, h)
      | UrlInput url \<Rightarrow>
          (let (body, h') =
                 (case init_body of
                    None \<Rightarrow> (None, h)
                  | Some b \<Rightarrow>
                      if body_truthy b
                      then (let (a, h') = Buffer_from h b in (Some a, h'))
                      else (None, h))
           in (\<lparr>req_method = (case init_method of None \<Rightarrow> ''GET'' | Some m \<Rightarrow> m),
                 req_url = url,
                 req_headers = Headers_new init_headers,
                 req_body = body,
                 req_bodyUsed = False\<rparr>, h')))"

definition Request_checkBodyUsed :: "Request \<Rightarrow> js_error option" where
  "Request_checkBodyUsed r = (if req_bodyUsed r then Some body_consumed else None)"

definition Request_arrayBuffer :: "heap \<Rightarrow> Request \<Rightarrow> (js_error + addr) \<times> Request \<times> heap" where
  "Request_arrayBuffer h r =
     (case Request_checkBodyUsed r of
        Some e \<Rightarrow> (Inl e, r, h)
      | None \<Rightarrow>
          (let r' = r\<lparr>req_bodyUsed := True\<rparr>;
               (ab, h') = alloc h (case req_body r of None \<Rightarrow> [] | Some a \<Rightarrow> cells h a)
           in (Inr ab, r', h')))"

definition Request_text :: "heap \<Rightarrow> Request \<Rightarrow> (js_error + string) \<times> Request" where
  "Request_text h r =
     (case Request_checkBodyUsed r of
        Some e \<Rightarrow> (Inl e, r)
      | None \<Rightarrow>
          (let r' = r\<lparr>req_bodyUsed := True\<rparr>
           in case req_body r of
                None \<Rightarrow> (Inr [], r')
              | Some a \<Rightarrow> (Inr (Buffer_toString (cells h a)), r')))"

text \<open>\<open>JSON.parse\<close> is a built-in of the platform: the accessor takes it as a parameter.\<close>

definition Request_json ::
  "(string \<Rightarrow> js_error + 'v) \<Rightarrow> heap \<Rightarrow> Request \<Rightarrow> (js_error + 'v) \<times> Request" where
  "Request_json JSON_parse h r =
     (case Request_text h r of
        (Inl e, r') \<Rightarrow> (Inl e, r')
      | (Inr text, r') \<Rightarrow> (JSON_parse text, r'))"

definition Request_blob :: "heap \<Rightarrow> Request \<Rightarrow> (js_error + Buffer) \<times> Request" where
  "Request_blob h r =
     (case Request_checkBodyUsed r of
        Some e \<Rightarrow> (Inl e, r)
      | None \<Rightarrow>
          (let r' = r\<lparr>req_bodyUsed := True\<rparr>
           in case req_body r of
                None \<Rightarrow> (Inr [], r')
              | Some a \<Rightarrow> (Inr (cells h a), r')))"

definition Request_formData :: "Request \<Rightarrow> (js_error + unit) \<times> Request" where
  "Request_formData r = (Inl (Error ''FormData parsing not yet implemented''), r)"

definition Request_clone :: "heap \<Rightarrow> Request \<Rightarrow> js_error + Request \<times> heap" where
  "Request_clone h r =
     (if req_bodyUsed r then Inl (TypeError ''Cannot clone a Request whose body has been used'')
      else Inr (Request_new h (UrlInput (req_url r))
                  (Some \<lparr>qi_method = Some (req_method r),
                         qi_headers = Some (FromHeaders (req_headers r)),
                         qi_body = map_option BodyBuffer (req_body r)\<rparr>)))"

text \<open>One call of a consuming accessor, and a sequence of such calls on one Request.\<close>

definition Request_call ::
  "(string \<Rightarrow> js_error + 'v) \<Rightarrow> accessor \<Rightarrow> heap \<Rightarrow> Request
     \<Rightarrow> (js_error + 'v body_value) \<times> Request \<times> heap" where
  "Request_call JSON_parse acc h r =
     (case acc of
        Text \<Rightarrow> (let (res, r') = Request_text h r in (map_sum id TextValue res, r', h))
      | ArrayBuffer \<Rightarrow>
          (let (res, r', h') = Request_arrayBuffer h r in (map_sum id ArrayBufferValue res, r', h'))
      | Blob \<Rightarrow> (let (res, r') = Request_blob h r in (map_sum id BlobValue res, r', h))
      | Json \<Rightarrow> (let (res, r') = Request_json JSON_parse h r in (map_sum id JsonValue res, r', h)))"

fun Request_calls ::
  "(string \<Rightarrow> js_error + 'v) \<Rightarrow> accessor list \<Rightarrow> heap \<Rightarrow> Request
     \<Rightarrow> (js_error + 'v body_value) list" where
  "Request_calls JSON_parse [] h r = []"
| "Request_calls JSON_parse (acc # accs) h r =
     (case Request_call JSON_parse acc h r of
        (res, r', h') \<Rightarrow> res # Request_calls JSON_parse accs h' r')"

section \<open>Response\<close>

record Response =
  res_status :: int
  res_statusText :: string
  res_headers :: Headers
  res_body :: "addr option"
  res_bodyUsed :: bool

record ResponseInit =
  ri_status :: "int option"
  ri_statusText :: "string option"
  ri_headers :: "HeadersInit option"

definition Response_new :: "heap \<Rightarrow> BodyInit option \<Rightarrow> ResponseInit option \<Rightarrow> Response \<times> heap" where
  "Response_new h body init =
     (let init_status = (case init of None \<Rightarrow> None | Some i \<Rightarrow> ri_status i);
          init_statusText = (case init of None \<Rightarrow> None | Some i \<Rightarrow> ri_statusText i);
          init_headers = (case init of None \<Rightarrow> None | Some i \<Rightarrow> ri_headers i);
          (b, h') =
            (case body of
               None \<Rightarrow> (None, h)
             | Some (BodyString s) \<Rightarrow> (let (a, h') = Buffer_from h (BodyString s) in (Some a, h'))
             | Some (BodyBuffer a) \<Rightarrow> (Some a, h)
             | Some (BodyArrayBuffer a) \<Rightarrow>
                 (let (a', h') = Buffer_from h (BodyArrayBuffer a) in (Some a', h'))
             | Some (BodyUint8Array a) \<Rightarrow>
                 (let (a', h') = Buffer_from h (BodyUint8Array a) in (Some a', h')))
      in (\<lparr>res_status = (case init_status of None \<Rightarrow> 200 | Some s \<Rightarrow> s),
           res_statusText = (case init_statusText of None \<Rightarrow> ''OK'' | Some t \<Rightarrow> t),
           res_headers = Headers_new init_headers,
           res_body = b,
           res_bodyUsed = False\<rparr>, h'))"

definition Response_ok :: "Response \<Rightarrow> bool" where
  "Response_ok r = (200 \<le> res_status r \<and> res_status r < 300)"

definition Response_checkBodyUsed :: "Response \<Rightarrow> js_error option" where
  "Response_checkBodyUsed r = (if res_bodyUsed r then Some body_consumed else None)"

definition Response_arrayBuffer :: "heap \<Rightarrow> Response \<Rightarrow> (js_error + addr) \<times> Response \<times> heap" where
  "Response_arrayBuffer h r =
     (case Response_checkBodyUsed r of
        Some e \<Rightarrow> (Inl e, r, h)
      | None \<Rightarrow>
          (let r' = r\<lparr>res_bodyUsed := True\<rparr>;
               (ab, h') = alloc h (case res_body r of None \<Rightarrow> [] | Some a \<Rightarrow> cells h a)
           in (Inr ab, r', h')))"

definition Response_text :: "heap \<Rightarrow> Response \<Rightarrow> (js_error + string) \<times> Response" where
  "Response_text h r =
     (case Response_checkBodyUsed r of
        Some e \<Rightarrow> (Inl e, r)
      | None \<Rightarrow>
          (let r' = r\<lparr>res_bodyUsed := True\<rparr>
           in case res_body r of
                None \<Rightarrow> (Inr [], r')
              | Some a \<Rightarrow> (Inr (Buffer_toString (cells h a)), r')))"

definition Response_json ::
  "(string \<Rightarrow> js_error + 'v) \<Rightarrow> heap \<Rightarrow> Response \<Rightarrow> (js_error + 'v) \<times> Response" where
  "Response_json JSON_parse h r =
     (case Response_text h r of
        (Inl e, r') \<Rightarrow> (Inl e, r')
      | (Inr text, r') \<Rightarrow> (JSON_parse text, r'))"

definition Response_blob :: "heap \<Rightarrow> Response \<Rightarrow> (js_error + Buffer) \<times> Response" where
  "Response_blob h r =
     (case Response_checkBodyUsed r of
        Some e \<Rightarrow> (Inl e, r)
      | None \<Rightarrow>
          (let r' = r\<lparr>res_bodyUsed := True\<rparr>
           in case res_body r of
                None \<Rightarrow> (Inr [], r')
              | Some a \<Rightarrow> (Inr (cells h a), r')))"

definition Response_formData :: "Response \<Rightarrow> (js_error + unit) \<times> Response" where
  "Response_formData r = (Inl (Error ''FormData parsing not yet implemented''), r)"

definition Response_clone :: "heap \<Rightarrow> Response \<Rightarrow> js_error + Response \<times> heap" where
  "Response_clone h r =
     (if res_bodyUsed r then Inl (TypeError ''Cannot clone a Response whose body has been used'')
      else Inr (Response_new h (map_option BodyBuffer (res_body r))
                  (Some \<lparr>ri_status = Some (res_status r),
                         ri_statusText = Some (res_statusText r),
                         ri_headers = Some (FromHeaders (res_headers r))\<rparr>)))"

text \<open>
  \<open>Response.json\<close>. \<open>JSON.stringify\<close> is a built-in of the platform, taken as a parameter:
  it throws, returns \<open>undefined\<close> (here \<open>None\<close>) or returns a text.
\<close>

definition Response_json_static ::
  "('v \<Rightarrow> js_error + string option) \<Rightarrow> heap \<Rightarrow> 'v \<Rightarrow> ResponseInit option
     \<Rightarrow> js_error + Response \<times> heap" where
  "Response_json_static JSON_stringify h data init =
     (case JSON_stringify data of
        Inl e \<Rightarrow> Inl e
      | Inr body \<Rightarrow>
          (let headers = Headers_new (case init of None \<Rightarrow> None | Some i \<Rightarrow> ri_headers i);
               headers = Headers_set headers ''content-type'' ''application/json''
           in Inr (Response_new h (map_option BodyString body)
                     (Some \<lparr>ri_status = (case init of None \<Rightarrow> None | Some i \<Rightarrow> ri_status i),
                            ri_statusText = (case init of None \<Rightarrow> None | Some i \<Rightarrow> ri_statusText i),
                            ri_headers = Some (FromHeaders headers)\<rparr>))))"

text \<open>\<open>Response.redirect\<close>; an omitted status is \<open>None\<close>.\<close>

definition Response_redirect :: "heap \<Rightarrow> string \<Rightarrow> int option \<Rightarrow> js_error + Response \<times> heap" where
  "Response_redirect h url status_opt =
     (let status = (case status_opt of None \<Rightarrow> 302 | Some s \<Rightarrow> s) in
      if status \<notin> set [301, 302, 303, 307, 308]
      then Inl (RangeError (''Invalid redirect status: '' @ show_int status))
      else Inr (Response_new h None
                  (Some \<lparr>ri_status = Some status,
                         ri_statusText = None,
                         ri_headers = Some (FromRecord [(''location'', url)])\<rparr>)))"

definition Response_error :: "heap \<Rightarrow> Response \<times> heap" where
  "Response_error h =
     Response_new h None (Some \<lparr>ri_status = Some 0, ri_statusText = None, ri_headers = None\<rparr>)"

record JsResponse =
  js_status :: int
  js_headers :: "JsHeader list"
  js_body :: "addr option"

text \<open>\<open>_toJsResponse\<close>, returning its result and the Response as the call leaves it.\<close>

definition Response_toJsResponse :: "Response \<Rightarrow> JsResponse \<times> Response" where
  "Response_toJsResponse r =
     (\<lparr>js_status = res_status r,
       js_headers = toJsHeaders (res_headers r),
       js_body = res_body r\<rparr>, r)"

text \<open>One call of a consuming accessor, and a sequence of such calls on one Response.\<close>

definition Response_call ::
  "(string \<Rightarrow> js_error + 'v) \<Rightarrow> accessor \<Rightarrow> heap \<Rightarrow> Response
     \<Rightarrow> (js_error + 'v body_value) \<times> Response \<times> heap" where
  "Response_call JSON_parse acc h r =
     (case acc of
        Text \<Rightarrow> (let (res, r') = Response_text h r in (map_sum id TextValue res, r', h))
      | ArrayBuffer \<Rightarrow>
          (let (res, r', h') = Response_arrayBuffer h r in (map_sum id ArrayBufferValue res, r', h'))
      | Blob \<Rightarrow> (let (res, r') = Response_blob h r in (map_sum id BlobValue res, r', h))
      | Json \<Rightarrow> (let (res, r') = Response_json JSON_parse h r in (map_sum id JsonValue res, r', h)))"

fun Response_calls ::
  "(string \<Rightarrow> js_error + 'v) \<Rightarrow> accessor list \<Rightarrow> heap \<Rightarrow> Response
     \<Rightarrow> (js_error + 'v body_value) list" where
  "Response_calls JSON_parse [] h r = []"
| "Response_calls JSON_parse (acc # accs) h r =
     (case Response_call JSON_parse acc h r of
        (res, r', h') \<Rightarrow> res # Response_calls JSON_parse accs h' r')"

section \<open>FetchEvent\<close>

text \<open>
  The reply sink is a function of the environment: given the replies it has been handed so
  far and a new one, it returns (\<open>None\<close>) or throws (\<open>Some e\<close>).
\<close>

type_synonym reply_sink = "JsResponse list \<Rightarrow> JsResponse \<Rightarrow> js_error option"

record FetchEvent =
  ev_request :: Request
  ev_clientAddress :: string
  priv_responded :: bool
  priv_respondCallback :: reply_sink
  priv_waitUntilPromises :: "nat list"

definition FetchEvent_new :: "Request \<Rightarrow> string \<Rightarrow> reply_sink \<Rightarrow> FetchEvent" where
  "FetchEvent_new request clientAddress respondCallback =
     \<lparr>ev_request = request,
      ev_clientAddress = clientAddress,
      priv_responded = False,
      priv_respondCallback = respondCallback,
      priv_waitUntilPromises = []\<rparr>"

text \<open>How the promise given to \<open>respondWith\<close> settles; a plain Response is a fulfilled one.\<close>

datatype settled = Fulfilled Response | Rejected js_error

text \<open>
  What one exchange runs in: the store, the event, the promise reactions that
  \<open>respondWith\<close> has registered and that have not run yet, every invocation of the reply
  sink so far with how it ended, and the lines written by \<open>console.error\<close>.
\<close>

record runtime =
  rt_heap :: heap
  rt_event :: FetchEvent
  rt_reactions :: "settled list"
  rt_replies :: "(JsResponse \<times> js_error option) list"
  rt_console :: "(string \<times> js_error) list"

definition invoke_sink :: "runtime \<Rightarrow> JsResponse \<Rightarrow> js_error option \<times> runtime" where
  "invoke_sink rt response =
     (let thrown = priv_respondCallback (rt_event rt) (map fst (rt_replies rt)) response
      in (thrown, rt\<lparr>rt_replies := rt_replies rt @ [(response, thrown)]\<rparr>))"

text \<open>
  The \<open>then\<close> callback: what it throws, the value of \<open>responseSent\<close> it leaves, and the
  state.
\<close>

definition on_fulfilled :: "runtime \<Rightarrow> Response \<Rightarrow> js_error option \<times> bool \<times> runtime" where
  "on_fulfilled rt res =
     (case invoke_sink rt (fst (Response_toJsResponse res)) of
        (Some e, rt') \<Rightarrow> (Some e, False, rt')
      | (None, rt') \<Rightarrow> (None, True, rt'))"

text \<open>The \<open>catch\<close> callback, with the value of \<open>responseSent\<close> it finds.\<close>

definition on_rejected :: "runtime \<Rightarrow> bool \<Rightarrow> js_error \<Rightarrow> js_error option \<times> runtime" where
  "on_rejected rt responseSent error =
     (if responseSent
      then (None, rt\<lparr>rt_console := rt_console rt @ [(''Error after response sent:'', error)]\<rparr>)
      else
        (let (errorResponse, h') =
               Response_new (rt_heap rt)
                 (Some (BodyString (''Internal Server Error: '' @ message error)))
                 (Some \<lparr>ri_status = Some 500, ri_statusText = None, ri_headers = None\<rparr>)
         in case invoke_sink (rt\<lparr>rt_heap := h'\<rparr>) (fst (Response_toJsResponse errorResponse)) of
              (None, rt') \<Rightarrow> (None, rt')
            | (Some sendError, rt') \<Rightarrow>
                (None, rt'\<lparr>rt_console :=
                              rt_console rt' @ [(''Failed to send error response:'', sendError)]\<rparr>)))"

text \<open>
  The chain \<open>Promise.resolve(response).then(...).catch(...)\<close> once the promise has settled:
  what the chain's last promise is rejected with, if anything, and the state.
\<close>

definition run_chain :: "runtime \<Rightarrow> settled \<Rightarrow> js_error option \<times> runtime" where
  "run_chain rt s =
     (case s of
        Fulfilled res \<Rightarrow>
          (case on_fulfilled rt res of
             (None, responseSent, rt') \<Rightarrow> (None, rt')
           | (Some e, responseSent, rt') \<Rightarrow> on_rejected rt' responseSent e)
      | Rejected e \<Rightarrow> on_rejected rt False e)"

text \<open>
  \<open>respondWith\<close>: what the call throws, and the state. The argument is how the promise will
  settle, \<open>None\<close> for a promise that never does; the chain runs later, not in the call.
\<close>

definition respondWith :: "runtime \<Rightarrow> settled option \<Rightarrow> js_error option \<times> runtime" where
  "respondWith rt response =
     (if priv_responded (rt_event rt)
      then (Some (Error ''respondWith() has already been called''), rt)
      else (None, rt\<lparr>rt_event := (rt_event rt)\<lparr>priv_responded := True\<rparr>,
                      rt_reactions := rt_reactions rt @ (case response of None \<Rightarrow> [] | Some s \<Rightarrow> [s])\<rparr>))"

definition waitUntil :: "runtime \<Rightarrow> nat \<Rightarrow> runtime" where
  "waitUntil rt promise =
     rt\<lparr>rt_event := (rt_event rt)\<lparr>priv_waitUntilPromises :=
                                     priv_waitUntilPromises (rt_event rt) @ [promise]\<rparr>\<rparr>"

text \<open>
  What happens to an event over time: calls of \<open>respondWith\<close>, and the event loop running
  the oldest pending reaction.
\<close>

datatype action = CallRespondWith "settled option" | RunReaction

definition step :: "runtime \<Rightarrow> action \<Rightarrow> runtime" where
  "step rt a =
     (case a of
        CallRespondWith response \<Rightarrow> snd (respondWith rt response)
      | RunReaction \<Rightarrow>
          (case rt_reactions rt of
             [] \<Rightarrow> rt
           | s # rest \<Rightarrow> snd (run_chain (rt\<lparr>rt_reactions := rest\<rparr>) s)))"

definition run :: "runtime \<Rightarrow> action list \<Rightarrow> runtime" where
  "run rt acts = foldl step rt acts"

text \<open>The exchange as the transport hands it over.\<close>

record RequestContext =
  ctx_method :: string
  ctx_url :: string
  ctx_headers :: "(string \<times> string) list"
  ctx_body :: "addr option"
  ctx_clientAddress :: string
  ctx_respond :: reply_sink

definition Request_fromContext :: "heap \<Rightarrow> RequestContext \<Rightarrow> Request \<times> heap" where
  "Request_fromContext h ctx =
     (let (request, h') =
            Request_new h (UrlInput (ctx_url ctx))
              (Some \<lparr>qi_method = Some (ctx_method ctx),
                     qi_headers = Some (FromArray (map (\<lambda>e. HeaderPair (fst e) (snd e)) (ctx_headers ctx))),
                     qi_body = None\<rparr>)
      in (request\<lparr>req_body := ctx_body ctx\<rparr>, h'))"

definition FetchEvent_fromContext :: "heap \<Rightarrow> RequestContext \<Rightarrow> runtime" where
  "FetchEvent_fromContext h ctx =
     (let (request, h') = Request_fromContext h ctx
      in \<lparr>rt_heap = h',
          rt_event = FetchEvent_new request (ctx_clientAddress ctx) (ctx_respond ctx),
          rt_reactions = [],
          rt_replies = [],
          rt_console = []\<rparr>)"

section \<open>Server\<close>

text \<open>
  Handlers are functions of the embedding application: they are named by numbers, and
  \<open>handler_code\<close> says what each does when called with the event: what it throws, and the
  state it leaves. The state a handler can reach holds the list of registered handlers
  (it may call \<open>addEventListener\<close> and \<open>removeEventListener\<close>) and the exchange.
\<close>

record world =
  priv_handlers :: "nat list"
  w_exchange :: runtime

type_synonym handler_code = "nat \<Rightarrow> world \<Rightarrow> js_error option \<times> world"

definition addEventListener :: "world \<Rightarrow> string \<Rightarrow> nat \<Rightarrow> js_error option \<times> world" where
  "addEventListener w event handler =
     (if event \<noteq> ''fetch'' then (Some (Error (''Unknown event type: '' @ event)), w)
      else (None, w\<lparr>priv_handlers := priv_handlers w @ [handler]\<rparr>))"

text \<open>\<open>indexOf\<close> then \<open>splice(index, 1)\<close>: the first occurrence is removed.\<close>

definition removeEventListener :: "world \<Rightarrow> string \<Rightarrow> nat \<Rightarrow> js_error option \<times> world" where
  "removeEventListener w event handler =
     (if event \<noteq> ''fetch'' then (Some (Error (''Unknown event type: '' @ event)), w)
      else (None, w\<lparr>priv_handlers := remove1 handler (priv_handlers w)\<rparr>))"

text \<open>
  The loop \<open>for (const handler of this._handlers)\<close>: the array iterator keeps an index and
  reads the array anew at every step. A handler may register handlers for ever, so the loop
  takes fuel and \<open>None\<close> says that it ran out. The loop returns the state, the handlers it
  has called in order, and the errors it has logged.
\<close>

fun dispatch_loop ::
  "nat \<Rightarrow> handler_code \<Rightarrow> nat \<Rightarrow> world \<Rightarrow> nat list \<Rightarrow> js_error list
     \<Rightarrow> (world \<times> nat list \<times> js_error list) option" where
  "dispatch_loop fuel code i w called logged =
     (if i < length (priv_handlers w)
      then (case fuel of
              0 \<Rightarrow> None
            | Suc fuel' \<Rightarrow>
                (let handler = priv_handlers w ! i in
                 case code handler w of
                   (None, w') \<Rightarrow> dispatch_loop fuel' code (Suc i) w' (called @ [handler]) logged
                 | (Some error, w') \<Rightarrow>
                     dispatch_loop fuel' code (Suc i) w' (called @ [handler]) (logged @ [error])))
      else Some (w, called, logged))"

declare dispatch_loop.simps [simp del]

text \<open>The callback given to \<open>setHandler\<close>: one event for the exchange, then the loop.\<close>

definition dispatch ::
  "nat \<Rightarrow> handler_code \<Rightarrow> nat list \<Rightarrow> heap \<Rightarrow> RequestContext
     \<Rightarrow> (world \<times> nat list \<times> js_error list) option" where
  "dispatch fuel code handlers h ctx =
     dispatch_loop fuel code 0
       \<lparr>priv_handlers = handlers, w_exchange = FetchEvent_fromContext h ctx\<rparr> [] []"

text \<open>\<open>listen\<close> refuses to start without a handler.\<close>

definition listen_check :: "world \<Rightarrow> js_error option" where
  "listen_check w =
     (if length (priv_handlers w) = 0
      then Some (Error ''No fetch handler registered. Call addEventListener(\"fetch\", handler) before listen()'')
      else None)"

section \<open>The invariant of Headers\<close>

text \<open>
  Every key of the map of a Headers object is a lower-cased name, and no key occurs twice.
  The constructor establishes this and \<open>set\<close>, \<open>append\<close> and \<open>delete\<close> keep it.
\<close>

definition lower_keys :: "js_map \<Rightarrow> bool" where
  "lower_keys m = list_all (\<lambda>e. toLowerCase (fst e) = fst e) m"

definition map_wf :: "js_map \<Rightarrow> bool" where
  "map_wf m = (distinct (map fst m) \<and> lower_keys m)"

definition Headers_wf :: "Headers \<Rightarrow> bool" where
  "Headers_wf h = map_wf (priv_headers h)"

section \<open>Auxiliary notions of the statements\<close>

text \<open>A call succeeds when it returns a value (its promise is fulfilled).\<close>

definition succeeded :: "js_error + 'a \<Rightarrow> bool" where
  "succeeded x = (case x of Inl e \<Rightarrow> False | Inr v \<Rightarrow> True)"

text \<open>
  \<open>JSON.stringify\<close> and \<open>JSON.parse\<close> are parameters of the definitions above. Closed
  instances use their restriction to the values \<open>undefined\<close>, \<open>null\<close>, \<open>true\<close> and
  \<open>false\<close>: \<open>JSON.stringify(undefined)\<close> is \<open>undefined\<close>, and the empty text is no JSON
  text. Texts of other JSON values are beyond this restriction and are not used.
\<close>

datatype js_value = JUndefined | JNull | JBool bool

definition JSON_stringify_lit :: "js_value \<Rightarrow> js_error + string option" where
  "JSON_stringify_lit v =
     (case v of
        JUndefined \<Rightarrow> Inr None
      | JNull \<Rightarrow> Inr (Some ''null'')
      | JBool b \<Rightarrow> Inr (Some (if b then ''true'' else ''false'')))"

definition JSON_parse_lit :: "string \<Rightarrow> js_error + js_value" where
  "JSON_parse_lit s =
     (if s = ''null'' then Inr JNull
      else if s = ''true'' then Inr (JBool True)
      else if s = ''false'' then Inr (JBool False)
      else if s = [] then Inl (SyntaxError ''Unexpected end of JSON input'')
      else Inl (SyntaxError ''Unexpected token''))"

text \<open>Objects for the closed instances: a store holding \<open>hello\<close>, and messages over it.\<close>

definition store0 :: heap where
  "store0 = \<lparr>cells = (\<lambda>a. [])(0 := ''hello''), next_addr = 1\<rparr>"

definition response0 :: Response where
  "response0 =
     \<lparr>res_status = 200, res_statusText = ''OK'',
      res_headers = \<lparr>priv_headers = [(''content-type'', ''text/plain'')]\<rparr>,
      res_body = Some 0, res_bodyUsed = False\<rparr>"

definition request0 :: Request where
  "request0 =
     \<lparr>req_method = ''POST'', req_url = ''https://example.com/'',
      req_headers = \<lparr>priv_headers = [(''content-type'', ''text/plain'')]\<rparr>,
      req_body = Some 0, req_bodyUsed = False\<rparr>"

text \<open>
  What the replies of one exchange may be: none, one, or two of which the first threw.
  \<open>rt_inv\<close> holds of an exchange at every moment: before \<open>respondWith\<close> nothing is
  pending and nothing is sent; after it, either the reaction is pending and nothing is
  sent, or the reaction has run.
\<close>

definition replies_ok :: "(JsResponse \<times> js_error option) list \<Rightarrow> bool" where
  "replies_ok rs = (length rs \<le> 1 \<or> (length rs = 2 \<and> snd (hd rs) \<noteq> None))"

definition rt_inv :: "runtime \<Rightarrow> bool" where
  "rt_inv rt =
     (if priv_responded (rt_event rt)
      then (rt_reactions rt = [] \<and> replies_ok (rt_replies rt))
           \<or> (length (rt_reactions rt) = 1 \<and> rt_replies rt = [])
      else rt_reactions rt = [] \<and> rt_replies rt = [])"

text \<open>A sink that never throws, and has not so far.\<close>

definition never_throws :: "runtime \<Rightarrow> bool" where
  "never_throws rt =
     ((\<forall>replies response. priv_respondCallback (rt_event rt) replies response = None)
      \<and> list_all (\<lambda>c. snd c = None) (rt_replies rt))"

text \<open>
  Two reply sinks, one that accepts every reply and one that throws on every reply, and
  an exchange of the transport with a given sink.
\<close>

definition sink_ok :: reply_sink where
  "sink_ok replies response = None"

definition sink_closed :: reply_sink where
  "sink_closed replies response = Some (Error ''connection closed'')"

definition ctx0 :: "reply_sink \<Rightarrow> RequestContext" where
  "ctx0 sink =
     \<lparr>ctx_method = ''GET'', ctx_url = ''https://example.com/'',
      ctx_headers = [(''Accept'', ''text/plain'')], ctx_body = None,
      ctx_clientAddress = ''127.0.0.1'', ctx_respond = sink\<rparr>"

definition exchange0 :: "reply_sink \<Rightarrow> runtime" where
  "exchange0 sink = FetchEvent_fromContext store0 (ctx0 sink)"

definition init_text_plain :: "ResponseInit option" where
  "init_text_plain =
     Some \<lparr>ri_status = Some 201, ri_statusText = None,
           ri_headers = Some (FromRecord [(''Content-Type'', ''text/plain'')])\<rparr>"

text \<open>
  What the claim about the dispatch says, in its own words: the handlers of the list
  are called one after the other in the order of the list, each on the state (the event
  with it) that the one before has left, and what each throws is noted and nothing more.
\<close>

fun call_all :: "handler_code \<Rightarrow> nat list \<Rightarrow> world \<Rightarrow> world \<times> (nat \<times> js_error option) list" where
  "call_all code [] w = (w, [])"
| "call_all code (handler # rest) w =
     (let outcome = code handler w; others = call_all code rest (snd outcome)
      in (fst others, (handler, fst outcome) # snd others))"

text \<open>
  Handlers for the closed instances: one that calls \<open>respondWith\<close>, a list whose first
  handler removes itself (a handler meant to run once), and a list whose first handler
  throws.
\<close>

definition respond_handler :: "settled \<Rightarrow> world \<Rightarrow> js_error option \<times> world" where
  "respond_handler s w =
     (case respondWith (w_exchange w) (Some s) of
        (thrown, rt) \<Rightarrow> (thrown, w\<lparr>w_exchange := rt\<rparr>))"

definition code_once :: handler_code where
  "code_once handler w =
     (if handler = 0 then removeEventListener w ''fetch'' 0
      else respond_handler (Fulfilled response0) w)"

definition code_throwing :: handler_code where
  "code_throwing handler w =
     (if handler = 0 then (Some (Error ''Handler error''), w)
      else respond_handler (Fulfilled response0) w)"

section \<open>Facts about Map and Headers\<close>

lemma map_of_Map_set: "map_of (Map_set m k v) = (map_of m)(k \<mapsto> v)"
  by (induction m) (auto simp: fun_eq_iff)

lemma Map_get_set: "Map_get (Map_set m k v) k' = (if k' = k then Some v else Map_get m k')"
  by (simp add: Map_get_def map_of_Map_set)

lemma Headers_get_set:
  "Headers_get (Headers_set h n v) n' =
     (if toLowerCase n' = toLowerCase n then Some v else Headers_get h n')"
  by (simp add: Headers_get_def Headers_set_def Map_get_set)

lemma Headers_append_absent:
  "\<not> Headers_has h n \<Longrightarrow> Headers_append h n v = Headers_set h n v"
  by (simp add: Headers_append_def Headers_set_def Headers_has_def Map_has_def Map_get_def)

lemma Headers_append_present:
  "Headers_get h n = Some v1 \<Longrightarrow> v1 \<noteq> [] \<Longrightarrow>
   Headers_get (Headers_append h n v2) n = Some (v1 @ '', '' @ v2)"
  by (simp add: Headers_append_def Headers_get_def Map_get_set)

lemma lower_char_idem: "lower_char (lower_char c) = lower_char c"
  by (simp add: lower_char_def Let_def)

lemma toLowerCase_idem: "toLowerCase (toLowerCase s) = toLowerCase s"
  by (simp add: toLowerCase_def lower_char_idem)

lemma keys_Map_set: "fst ` set (Map_set m k v) = insert k (fst ` set m)"
  by (simp add: dom_map_of_conv_image_fst [symmetric] map_of_Map_set)

lemma distinct_Map_set: "distinct (map fst m) \<Longrightarrow> distinct (map fst (Map_set m k v))"
  by (induction m) (auto simp: keys_Map_set)

lemma lower_keys_Map_set:
  "lower_keys m \<Longrightarrow> toLowerCase k = k \<Longrightarrow> lower_keys (Map_set m k v)"
  by (induction m) (auto simp: lower_keys_def)

lemma Map_set_absent: "k \<notin> fst ` set m \<Longrightarrow> Map_set m k v = m @ [(k, v)]"
  by (induction m) auto

lemma map_wf_Map_set: "map_wf m \<Longrightarrow> map_wf (Map_set m (toLowerCase k) v)"
  by (simp add: map_wf_def distinct_Map_set lower_keys_Map_set toLowerCase_idem)

lemma map_wf_Map_delete: "map_wf m \<Longrightarrow> map_wf (Map_delete m k)"
  by (simp add: map_wf_def Map_delete_def distinct_map_filter lower_keys_def list_all_iff)

lemma map_wf_set_lowered: "map_wf m \<Longrightarrow> map_wf (set_lowered m e)"
  by (simp add: set_lowered_def map_wf_Map_set)

lemma map_wf_foldl: "map_wf acc \<Longrightarrow> map_wf (foldl set_lowered acc xs)"
  by (induction xs arbitrary: acc) (auto simp: map_wf_set_lowered)

lemma map_wf_Nil: "map_wf []"
  by (simp add: map_wf_def lower_keys_def)

lemma foldl_set_lowered_copy:
  "distinct (map fst (acc @ m)) \<Longrightarrow> lower_keys m \<Longrightarrow> foldl set_lowered acc m = acc @ m"
proof (induction m arbitrary: acc)
  case Nil
  then show ?case by simp
next
  case (Cons e m)
  obtain k v where e: "e = (k, v)" by (cases e)
  from Cons.prems have k: "toLowerCase k = k" "k \<notin> fst ` set acc"
    by (auto simp: e lower_keys_def)
  then have "set_lowered acc e = acc @ [(k, v)]"
    by (simp add: set_lowered_def e Map_set_absent)
  moreover have "foldl set_lowered (acc @ [(k, v)]) m = (acc @ [(k, v)]) @ m"
    using Cons.prems by (intro Cons.IH) (auto simp: e lower_keys_def)
  ultimately show ?case by (simp add: e)
qed

lemma Headers_new_wf: "Headers_wf (Headers_new init)"
  by (simp add: Headers_new_def Headers_wf_def map_wf_foldl map_wf_Nil
      split: option.splits HeadersInit.splits)

lemma Headers_new_copy: "Headers_wf hs \<Longrightarrow> Headers_new (Some (FromHeaders hs)) = hs"
  using foldl_set_lowered_copy [of "[]" "priv_headers hs"]
  by (simp add: Headers_new_def Headers_wf_def map_wf_def)

lemma Headers_set_wf: "Headers_wf h \<Longrightarrow> Headers_wf (Headers_set h n v)"
  by (simp add: Headers_wf_def Headers_set_def map_wf_Map_set)

lemma Headers_append_wf: "Headers_wf h \<Longrightarrow> Headers_wf (Headers_append h n v)"
  by (simp add: Headers_wf_def Headers_append_def Let_def map_wf_Map_set split: option.splits)

lemma Headers_delete_wf: "Headers_wf h \<Longrightarrow> Headers_wf (Headers_delete h n)"
  by (simp add: Headers_wf_def Headers_delete_def map_wf_Map_delete)

lemma Response_new_wf: "Headers_wf (res_headers (fst (Response_new h body init)))"
  by (simp add: Response_new_def Let_def Headers_new_wf split: prod.splits)

lemma Request_new_wf: "Headers_wf (req_headers (fst (Request_new h input init)))"
  by (simp add: Request_new_def Let_def Headers_new_wf split: prod.splits RequestInput.splits)

section \<open>Consuming the body\<close>

lemma Response_call_used:
  "res_bodyUsed r \<Longrightarrow> Response_call P acc h r = (Inl body_consumed, r, h)"
  by (cases acc)
    (simp_all add: Response_call_def Response_text_def Response_arrayBuffer_def
      Response_blob_def Response_json_def Response_checkBodyUsed_def)

lemma Response_call_marks:
  "\<not> res_bodyUsed r \<Longrightarrow> res_bodyUsed (fst (snd (Response_call P acc h r)))"
  by (cases acc)
    (simp_all add: Response_call_def Response_text_def Response_arrayBuffer_def
      Response_blob_def Response_json_def Response_checkBodyUsed_def Let_def
      split: option.splits prod.splits sum.splits)

lemma Response_calls_used:
  "res_bodyUsed r \<Longrightarrow> \<forall>x \<in> set (Response_calls P accs h r). x = Inl body_consumed"
  by (induction accs arbitrary: h) (simp_all add: Response_call_used)

lemma Response_call_success_marks:
  "succeeded (fst (Response_call P acc h r)) \<Longrightarrow> res_bodyUsed (fst (snd (Response_call P acc h r)))"
  by (cases "res_bodyUsed r") (simp_all add: Response_call_used Response_call_marks succeeded_def)

lemma filter_succeeded_consumed:
  "\<forall>x \<in> set xs. x = Inl body_consumed \<Longrightarrow> filter succeeded xs = []"
  by (induction xs) (simp_all add: succeeded_def)

lemma Response_calls_at_most_one:
  "length (filter succeeded (Response_calls P accs h r)) \<le> 1"
proof (cases accs)
  case Nil
  then show ?thesis by simp
next
  case (Cons acc rest)
  obtain res r' h' where c: "Response_call P acc h r = (res, r', h')"
    by (cases "Response_call P acc h r")
  show ?thesis
  proof (cases "res_bodyUsed r")
    case True
    then show ?thesis
      using filter_succeeded_consumed [OF Response_calls_used [of r P accs h]] by simp
  next
    case False
    then have "res_bodyUsed r'"
      using Response_call_marks [of r P acc h] c by simp
    then have "filter succeeded (Response_calls P rest h' r') = []"
      by (intro filter_succeeded_consumed Response_calls_used)
    then show ?thesis by (simp add: Cons c)
  qed
qed

lemma Request_call_used:
  "req_bodyUsed r \<Longrightarrow> Request_call P acc h r = (Inl body_consumed, r, h)"
  by (cases acc)
    (simp_all add: Request_call_def Request_text_def Request_arrayBuffer_def
      Request_blob_def Request_json_def Request_checkBodyUsed_def)

lemma Request_call_marks:
  "\<not> req_bodyUsed r \<Longrightarrow> req_bodyUsed (fst (snd (Request_call P acc h r)))"
  by (cases acc)
    (simp_all add: Request_call_def Request_text_def Request_arrayBuffer_def
      Request_blob_def Request_json_def Request_checkBodyUsed_def Let_def
      split: option.splits prod.splits sum.splits)

lemma Request_calls_used:
  "req_bodyUsed r \<Longrightarrow> \<forall>x \<in> set (Request_calls P accs h r). x = Inl body_consumed"
  by (induction accs arbitrary: h) (simp_all add: Request_call_used)

lemma Request_call_success_marks:
  "succeeded (fst (Request_call P acc h r)) \<Longrightarrow> req_bodyUsed (fst (snd (Request_call P acc h r)))"
  by (cases "req_bodyUsed r") (simp_all add: Request_call_used Request_call_marks succeeded_def)

lemma Request_calls_at_most_one:
  "length (filter succeeded (Request_calls P accs h r)) \<le> 1"
proof (cases accs)
  case Nil
  then show ?thesis by simp
next
  case (Cons acc rest)
  obtain res r' h' where c: "Request_call P acc h r = (res, r', h')"
    by (cases "Request_call P acc h r")
  show ?thesis
  proof (cases "req_bodyUsed r")
    case True
    then show ?thesis
      using filter_succeeded_consumed [OF Request_calls_used [of r P accs h]] by simp
  next
    case False
    then have "req_bodyUsed r'"
      using Request_call_marks [of r P acc h] c by simp
    then have "filter succeeded (Request_calls P rest h' r') = []"
      by (intro filter_succeeded_consumed Request_calls_used)
    then show ?thesis by (simp add: Cons c)
  qed
qed

lemma response0_wf: "Headers_wf (res_headers response0)"
  by code_simp

lemma show_int_200: "show_int 200 = ''200''"
  by code_simp

lemma toLowerCase_location: "toLowerCase ''location'' = ''location''"
  by code_simp

lemma lower_keys_names:
  "lower_keys m \<Longrightarrow>
   \<forall>x \<in> set (map (\<lambda>e. \<lparr>jh_name = fst e, jh_value = snd e\<rparr>) m). toLowerCase (jh_name x) = jh_name x"
  by (auto simp: lower_keys_def list_all_iff)

lemma response0_text: "Response_call JSON_parse_lit Text store0 response0
   = (Inr (TextValue ''hello''), response0\<lparr>res_bodyUsed := True\<rparr>, store0)"
  by (simp add: Response_call_def Response_text_def Response_checkBodyUsed_def response0_def
      store0_def Buffer_toString_def)

lemma request0_text: "Request_call JSON_parse_lit Text store0 request0
   = (Inr (TextValue ''hello''), request0\<lparr>req_bodyUsed := True\<rparr>, store0)"
  by (simp add: Request_call_def Request_text_def Request_checkBodyUsed_def request0_def
      store0_def Buffer_toString_def)

lemma Response_text_Inr:
  "fst (Response_text h r) = Inr t \<Longrightarrow> \<not> res_bodyUsed r \<and> Response_text h r = (Inr t, r\<lparr>res_bodyUsed := True\<rparr>)"
  by (auto simp: Response_text_def Response_checkBodyUsed_def Let_def split: if_splits option.splits)

lemma Request_text_Inr:
  "fst (Request_text h r) = Inr t \<Longrightarrow> \<not> req_bodyUsed r \<and> Request_text h r = (Inr t, r\<lparr>req_bodyUsed := True\<rparr>)"
  by (auto simp: Request_text_def Request_checkBodyUsed_def Let_def split: if_splits option.splits)

lemma Response_json_failure:
  assumes "fst (Response_text h r) = Inr t" "P t = Inl e"
  shows "Response_json P h r = (Inl e, r\<lparr>res_bodyUsed := True\<rparr>)" "r\<lparr>res_bodyUsed := True\<rparr> \<noteq> r"
proof -
  from Response_text_Inr [OF assms(1)]
  have u: "\<not> res_bodyUsed r" and t: "Response_text h r = (Inr t, r\<lparr>res_bodyUsed := True\<rparr>)"
    by simp_all
  show "Response_json P h r = (Inl e, r\<lparr>res_bodyUsed := True\<rparr>)"
    by (simp add: Response_json_def t assms(2))
  show "r\<lparr>res_bodyUsed := True\<rparr> \<noteq> r"
  proof
    assume "r\<lparr>res_bodyUsed := True\<rparr> = r"
    then have "res_bodyUsed (r\<lparr>res_bodyUsed := True\<rparr>) = res_bodyUsed r" by simp
    with u show False by simp
  qed
qed

lemma Request_json_failure:
  assumes "fst (Request_text h r) = Inr t" "P t = Inl e"
  shows "Request_json P h r = (Inl e, r\<lparr>req_bodyUsed := True\<rparr>)" "r\<lparr>req_bodyUsed := True\<rparr> \<noteq> r"
proof -
  from Request_text_Inr [OF assms(1)]
  have u: "\<not> req_bodyUsed r" and t: "Request_text h r = (Inr t, r\<lparr>req_bodyUsed := True\<rparr>)"
    by simp_all
  show "Request_json P h r = (Inl e, r\<lparr>req_bodyUsed := True\<rparr>)"
    by (simp add: Request_json_def t assms(2))
  show "r\<lparr>req_bodyUsed := True\<rparr> \<noteq> r"
  proof
    assume "r\<lparr>req_bodyUsed := True\<rparr> = r"
    then have "req_bodyUsed (r\<lparr>req_bodyUsed := True\<rparr>) = req_bodyUsed r" by simp
    with u show False by simp
  qed
qed

section \<open>The claims\<close>

text \<open>
  C3. On a Request or a Response, at most one call among \<open>text\<close>, \<open>arrayBuffer\<close>, \<open>blob\<close>
  and \<open>json\<close> succeeds, whatever the calls and their order: a call that succeeds leaves the
  body marked as used, and every call after it fails with the error
  \<open>Body has already been consumed\<close>.
\<close>

theorem body_consumed_once:
  "length (filter succeeded (Response_calls P accs h r)) \<le> 1
   \<and> length (filter succeeded (Request_calls P accs h q)) \<le> 1
   \<and> (succeeded (fst (Response_call P acc h r)) \<longrightarrow>
        res_bodyUsed (fst (snd (Response_call P acc h r))) \<and>
        (\<forall>x \<in> set (Response_calls P accs h' (fst (snd (Response_call P acc h r)))).
           x = Inl body_consumed))
   \<and> (succeeded (fst (Request_call P acc h q)) \<longrightarrow>
        req_bodyUsed (fst (snd (Request_call P acc h q))) \<and>
        (\<forall>x \<in> set (Request_calls P accs h' (fst (snd (Request_call P acc h q)))).
           x = Inl body_consumed))"
  using Response_calls_at_most_one [of P accs h r] Request_calls_at_most_one [of P accs h q]
    Response_call_success_marks [of P acc h r] Request_call_success_marks [of P acc h q]
    Response_calls_used [of "fst (snd (Response_call P acc h r))" P accs h']
    Request_calls_used [of "fst (snd (Request_call P acc h q))" P accs h']
  by blast

theorem body_consumed_once_witness:
  "succeeded (fst (Response_call JSON_parse_lit Text store0 response0))
   \<and> succeeded (fst (Request_call JSON_parse_lit Text store0 request0))
   \<and> res_bodyUsed (fst (snd (Response_call JSON_parse_lit Text store0 response0)))
   \<and> req_bodyUsed (fst (snd (Request_call JSON_parse_lit Text store0 request0)))
   \<and> Response_calls JSON_parse_lit [Json, Blob] store0
         (fst (snd (Response_call JSON_parse_lit Text store0 response0)))
       = [Inl body_consumed, Inl body_consumed]
   \<and> Request_calls JSON_parse_lit [Json, Blob] store0
         (fst (snd (Request_call JSON_parse_lit Text store0 request0)))
       = [Inl body_consumed, Inl body_consumed]
   \<and> length (filter succeeded
         (Response_calls JSON_parse_lit [Json, Blob] store0 response0)) \<le> 1
   \<and> length (filter succeeded
         (Request_calls JSON_parse_lit [Json, Blob] store0 request0)) \<le> 1"
proof -
  let ?r = "fst (snd (Response_call JSON_parse_lit Text store0 response0))"
  let ?q = "fst (snd (Request_call JSON_parse_lit Text store0 request0))"
  note t = body_consumed_once [of JSON_parse_lit "[Json, Blob]" store0 response0
        request0 Text store0]
  have a: "succeeded (fst (Response_call JSON_parse_lit Text store0 response0))"
    by (simp add: response0_text succeeded_def)
  have b: "succeeded (fst (Request_call JSON_parse_lit Text store0 request0))"
    by (simp add: request0_text succeeded_def)
  have c: "length (Response_calls JSON_parse_lit [Json, Blob] store0 r) = 2"
    "length (Request_calls JSON_parse_lit [Json, Blob] store0 q) = 2" for r q
    by (simp_all split: prod.splits)
  have d: "length xs = 2 \<Longrightarrow> \<forall>x \<in> set xs. x = y \<Longrightarrow> xs = [y, y]" for xs :: "'a list" and y
    by (cases xs; cases "tl xs") auto
  from t a have r1: "res_bodyUsed ?r"
    and r2: "\<forall>x \<in> set (Response_calls JSON_parse_lit [Json, Blob] store0 ?r). x = Inl body_consumed"
    by blast+
  from t b have q1: "req_bodyUsed ?q"
    and q2: "\<forall>x \<in> set (Request_calls JSON_parse_lit [Json, Blob] store0 ?q). x = Inl body_consumed"
    by blast+
  from t have n: "length (filter succeeded
         (Response_calls JSON_parse_lit [Json, Blob] store0 response0)) \<le> 1"
    "length (filter succeeded
         (Request_calls JSON_parse_lit [Json, Blob] store0 request0)) \<le> 1"
    by blast+
  show ?thesis
    using a b r1 q1 d [OF c(1) r2] d [OF c(2) q2] n by blast
qed

text \<open>
  C10. When the text of the body is no JSON text (\<open>JSON.parse\<close> throws \<open>e\<close> on what
  \<open>text()\<close> returns), \<open>json()\<close> fails with \<open>e\<close>, the parse error, and yet marks the body as
  used: the message is not as it was before the call, every consuming accessor then fails
  with \<open>Body has already been consumed\<close>, and \<open>clone()\<close> fails.
\<close>

theorem json_failure_consumes:
  "(fst (Response_text h r) = Inr t \<and> P t = Inl e \<longrightarrow>
      fst (Response_json P h r) = Inl e
      \<and> snd (Response_json P h r) = r\<lparr>res_bodyUsed := True\<rparr>
      \<and> snd (Response_json P h r) \<noteq> r
      \<and> fst (Response_call P acc h' (snd (Response_json P h r))) = Inl body_consumed
      \<and> Response_clone h' (snd (Response_json P h r))
          = Inl (TypeError ''Cannot clone a Response whose body has been used''))
   \<and> (fst (Request_text h q) = Inr t \<and> P t = Inl e \<longrightarrow>
      fst (Request_json P h q) = Inl e
      \<and> snd (Request_json P h q) = q\<lparr>req_bodyUsed := True\<rparr>
      \<and> snd (Request_json P h q) \<noteq> q
      \<and> fst (Request_call P acc h' (snd (Request_json P h q))) = Inl body_consumed
      \<and> Request_clone h' (snd (Request_json P h q))
          = Inl (TypeError ''Cannot clone a Request whose body has been used''))"
  using Response_json_failure [of h r t P e] Request_json_failure [of h q t P e]
  by (simp add: Response_call_used Request_call_used Response_clone_def Request_clone_def)

theorem json_failure_consumes_witness:
  "fst (Response_text store0 response0) = Inr ''hello''
   \<and> fst (Request_text store0 request0) = Inr ''hello''
   \<and> JSON_parse_lit ''hello'' = Inl (SyntaxError ''Unexpected token'')
   \<and> fst (Response_json JSON_parse_lit store0 response0) = Inl (SyntaxError ''Unexpected token'')
   \<and> res_bodyUsed (snd (Response_json JSON_parse_lit store0 response0))
   \<and> fst (Response_call JSON_parse_lit Text store0
            (snd (Response_json JSON_parse_lit store0 response0))) = Inl body_consumed
   \<and> fst (Request_json JSON_parse_lit store0 request0) = Inl (SyntaxError ''Unexpected token'')
   \<and> req_bodyUsed (snd (Request_json JSON_parse_lit store0 request0))
   \<and> fst (Request_call JSON_parse_lit Text store0
            (snd (Request_json JSON_parse_lit store0 request0))) = Inl body_consumed"
proof -
  have a: "fst (Response_text store0 response0) = Inr ''hello''"
    by (simp add: Response_text_def Response_checkBodyUsed_def response0_def store0_def
        Buffer_toString_def)
  have b: "fst (Request_text store0 request0) = Inr ''hello''"
    by (simp add: Request_text_def Request_checkBodyUsed_def request0_def store0_def
        Buffer_toString_def)
  have c: "JSON_parse_lit ''hello'' = Inl (SyntaxError ''Unexpected token'')"
    by (simp add: JSON_parse_lit_def)
  show ?thesis
    using a b c
      json_failure_consumes [of store0 response0 "''hello''" JSON_parse_lit
        "SyntaxError ''Unexpected token''" Text store0 request0]
    by auto
qed

text \<open>
  C8. \<open>Response.redirect(url, status)\<close> throws a RangeError and builds nothing when the
  status is not one of 301, 302, 303, 307 and 308; otherwise it returns a Response with that
  status, the header \<open>location\<close> set to \<open>url\<close> and no body, in an unchanged store. An
  omitted status is 302.
\<close>

theorem Response_redirect_status:
  "Response_redirect h url status =
     (if (case status of None \<Rightarrow> 302 | Some s \<Rightarrow> s) \<in> {301, 302, 303, 307, 308}
      then Inr (\<lparr>res_status = (case status of None \<Rightarrow> 302 | Some s \<Rightarrow> s),
                 res_statusText = ''OK'',
                 res_headers = \<lparr>priv_headers = [(''location'', url)]\<rparr>,
                 res_body = None,
                 res_bodyUsed = False\<rparr>, h)
      else Inl (RangeError (''Invalid redirect status: '' @ show_int (case status of None \<Rightarrow> 302 | Some s \<Rightarrow> s))))
   \<and> Headers_get \<lparr>priv_headers = [(''location'', url)]\<rparr> ''location'' = Some url"
  by (simp add: Response_redirect_def Response_new_def Headers_new_def set_lowered_def
      Headers_get_def Map_get_def toLowerCase_location Let_def)

theorem Response_redirect_status_witness:
  "Response_redirect store0 ''/a'' (Some 200) = Inl (RangeError ''Invalid redirect status: 200'')
   \<and> (\<exists>r. Response_redirect store0 ''/a'' None = Inr (r, store0)
          \<and> res_status r = 302 \<and> Headers_get (res_headers r) ''location'' = Some ''/a''
          \<and> res_body r = None)
   \<and> (\<exists>r. Response_redirect store0 ''/a'' (Some 308) = Inr (r, store0)
          \<and> res_status r = 308 \<and> Headers_get (res_headers r) ''location'' = Some ''/a''
          \<and> res_body r = None)"
  using Response_redirect_status [of store0 "''/a''" "Some 200"]
    Response_redirect_status [of store0 "''/a''" None]
    Response_redirect_status [of store0 "''/a''" "Some 308"] show_int_200
  by simp

text \<open>
  C9. \<open>_toJsResponse\<close> returns the status, the headers as the sequence of \<open>{name, value}\<close>
  records of the map's entries in their order, every name lower-case, and the body bytes
  if there are any; it leaves the Response as it was. The flag of the body is not set, so
  every consuming accessor and \<open>clone\<close> do after the conversion what they would have done
  before it.
\<close>

theorem Response_toJsResponse_frame:
  assumes "Headers_wf (res_headers r)"
  shows "snd (Response_toJsResponse r) = r
    \<and> js_status (fst (Response_toJsResponse r)) = res_status r
    \<and> js_headers (fst (Response_toJsResponse r))
        = map (\<lambda>e. \<lparr>jh_name = fst e, jh_value = snd e\<rparr>) (priv_headers (res_headers r))
    \<and> (\<forall>x \<in> set (js_headers (fst (Response_toJsResponse r))). toLowerCase (jh_name x) = jh_name x)
    \<and> js_body (fst (Response_toJsResponse r)) = res_body r
    \<and> res_bodyUsed (snd (Response_toJsResponse r)) = res_bodyUsed r
    \<and> Response_call JSON_parse acc h (snd (Response_toJsResponse r)) = Response_call JSON_parse acc h r
    \<and> Response_clone h (snd (Response_toJsResponse r)) = Response_clone h r"
  using assms lower_keys_names [of "priv_headers (res_headers r)"]
  by (simp add: Response_toJsResponse_def toJsHeaders_def Headers_wf_def map_wf_def)

theorem Response_toJsResponse_frame_witness:
  "Headers_wf (res_headers response0)
   \<and> snd (Response_toJsResponse response0) = response0
   \<and> fst (Response_toJsResponse response0)
       = \<lparr>js_status = 200,
          js_headers = [\<lparr>jh_name = ''content-type'', jh_value = ''text/plain''\<rparr>],
          js_body = Some 0\<rparr>
   \<and> fst (Response_call JSON_parse_lit Text store0 (snd (Response_toJsResponse response0)))
       = Inr (TextValue ''hello'')"
  using Response_toJsResponse_frame [OF response0_wf, of JSON_parse_lit Text store0]
    response0_wf response0_text
  by (simp add: response0_def)

text \<open>
  C6. \<open>append\<close> on a name that is present with the empty string as its value: the name
  is present (\<open>has\<close> says so and \<open>get\<close> returns the empty string), and \<open>append\<close> stores
  the new value alone, not the old value, a comma, a space and the new value.
\<close>

theorem Headers_append_empty_value:
  "Headers_has (Headers_set (Headers_new None) ''X'' '''') ''x''
   \<and> Headers_get (Headers_set (Headers_new None) ''X'' '''') ''x'' = Some ''''
   \<and> Headers_get (Headers_append (Headers_set (Headers_new None) ''X'' '''') ''x'' ''b'') ''x''
       = Some ''b''"
  by code_simp

section \<open>Cloning, the JSON constructor and the reply\<close>

lemma Response_clone_used:
  "res_bodyUsed r \<Longrightarrow>
   Response_clone h r = Inl (TypeError ''Cannot clone a Response whose body has been used'')"
  by (simp add: Response_clone_def)

lemma Request_clone_used:
  "req_bodyUsed r \<Longrightarrow>
   Request_clone h r = Inl (TypeError ''Cannot clone a Request whose body has been used'')"
  by (simp add: Request_clone_def)

lemma Response_clone_same_bytes:
  "\<not> res_bodyUsed r \<Longrightarrow> Headers_wf (res_headers r) \<Longrightarrow> Response_clone h r = Inr (r, h)"
  by (cases "res_body r") (simp_all add: Response_clone_def Response_new_def Headers_new_copy)

lemma Request_clone_copies:
  "\<not> req_bodyUsed r \<Longrightarrow> Headers_wf (req_headers r) \<Longrightarrow>
   Request_clone h r =
     (case req_body r of
        None \<Rightarrow> Inr (r, h)
      | Some a \<Rightarrow> Inr (r\<lparr>req_body := Some (next_addr h)\<rparr>, snd (alloc h (cells h a))))"
  by (cases "req_body r")
    (simp_all add: Request_clone_def Request_new_def Headers_new_copy Buffer_from_def alloc_def)

lemma toLowerCase_content_type: "toLowerCase ''content-type'' = ''content-type''"
  by code_simp

lemma Headers_get_json_headers:
  "Headers_get
     (Headers_new (Some (FromHeaders
        (Headers_set (Headers_new init_headers) ''content-type'' ''application/json''))))
     ''content-type'' = Some ''application/json''"
  by (simp add: Headers_new_copy Headers_set_wf Headers_new_wf Headers_get_set)

lemma Response_new_string:
  "Response_new h (Some (BodyString s)) init = (r, h') \<Longrightarrow>
   res_body r = Some (next_addr h) \<and> cells h' (next_addr h) = s \<and> \<not> res_bodyUsed r"
  by (auto simp: Response_new_def Buffer_from_def alloc_def Let_def)

lemma Response_new_None:
  "Response_new h None init = (r, h') \<Longrightarrow> res_body r = None \<and> h' = h \<and> \<not> res_bodyUsed r"
  by (auto simp: Response_new_def Let_def)

lemma Response_text_fresh:
  "\<not> res_bodyUsed r \<Longrightarrow>
   Response_text h r =
     (Inr (case res_body r of None \<Rightarrow> [] | Some a \<Rightarrow> Buffer_toString (cells h a)),
      r\<lparr>res_bodyUsed := True\<rparr>)"
  by (simp add: Response_text_def Response_checkBodyUsed_def Let_def split: option.splits)

lemma Response_json_fresh:
  "\<not> res_bodyUsed r \<Longrightarrow>
   fst (Response_json P h r) =
     P (case res_body r of None \<Rightarrow> [] | Some a \<Rightarrow> Buffer_toString (cells h a))"
  by (simp add: Response_json_def Response_text_fresh)

lemma respondWith_responded:
  "priv_responded (rt_event rt) \<Longrightarrow>
   respondWith rt response = (Some (Error ''respondWith() has already been called''), rt)"
  by (simp add: respondWith_def)

lemma respondWith_fresh:
  "\<not> priv_responded (rt_event rt) \<Longrightarrow>
   fst (respondWith rt response) = None
   \<and> priv_responded (rt_event (snd (respondWith rt response)))
   \<and> rt_replies (snd (respondWith rt response)) = rt_replies rt
   \<and> rt_reactions (snd (respondWith rt response))
       = rt_reactions rt @ (case response of None \<Rightarrow> [] | Some s \<Rightarrow> [s])"
  by (simp add: respondWith_def)

lemma run_chain_frame:
  "rt_event (snd (run_chain rt s)) = rt_event rt"
  "rt_reactions (snd (run_chain rt s)) = rt_reactions rt"
  "fst (run_chain rt s) = None"
  by (simp_all add: run_chain_def on_fulfilled_def on_rejected_def invoke_sink_def Let_def
      split: settled.splits prod.splits option.splits)

lemma run_chain_replies:
  "(\<exists>c. rt_replies (snd (run_chain rt s)) = rt_replies rt @ [c])
   \<or> (\<exists>c d. rt_replies (snd (run_chain rt s)) = rt_replies rt @ [c, d] \<and> snd c \<noteq> None)"
  by (simp add: run_chain_def on_fulfilled_def on_rejected_def invoke_sink_def Let_def
      split: settled.splits prod.splits option.splits)

lemma run_chain_replies_ok:
  "rt_replies rt = [] \<Longrightarrow> replies_ok (rt_replies (snd (run_chain rt s)))"
  using run_chain_replies [of rt s] by (auto simp: replies_ok_def)

lemma rt_inv_step: "rt_inv rt \<Longrightarrow> rt_inv (step rt a)"
proof (cases a)
  case (CallRespondWith response)
  assume "rt_inv rt"
  then show ?thesis
    by (cases response) (auto simp: CallRespondWith step_def respondWith_def rt_inv_def replies_ok_def)
next
  case RunReaction
  assume i: "rt_inv rt"
  show ?thesis
  proof (cases "rt_reactions rt")
    case Nil
    with i show ?thesis by (simp add: RunReaction step_def)
  next
    case (Cons s rest)
    with i have r: "priv_responded (rt_event rt)" "rest = []" "rt_replies rt = []"
      by (auto simp: rt_inv_def split: if_splits)
    let ?rt = "rt\<lparr>rt_reactions := rest\<rparr>"
    have "replies_ok (rt_replies (snd (run_chain ?rt s)))"
      using r by (intro run_chain_replies_ok) simp
    then show ?thesis
      using r by (simp add: RunReaction step_def Cons rt_inv_def run_chain_frame)
  qed
qed

lemma rt_inv_run: "rt_inv rt \<Longrightarrow> rt_inv (run rt acts)"
  unfolding run_def by (induction acts arbitrary: rt) (simp_all add: rt_inv_step)

lemma rt_inv_replies_ok: "rt_inv rt \<Longrightarrow> replies_ok (rt_replies rt)"
  by (auto simp: rt_inv_def replies_ok_def split: if_splits)

lemma replies_ok_bounds:
  "replies_ok rs \<Longrightarrow>
   length rs \<le> 2 \<and> length (filter (\<lambda>c. snd c = None) rs) \<le> 1
   \<and> (length rs = 2 \<longrightarrow> snd (hd rs) \<noteq> None)"
proof -
  assume ok: "replies_ok rs"
  show ?thesis
  proof (cases rs)
    case Nil
    then show ?thesis by simp
  next
    case (Cons c rest)
    note c = Cons
    show ?thesis
    proof (cases rest)
      case Nil
      then show ?thesis by (simp add: c)
    next
      case (Cons d rest')
      with ok c have "rest' = []" "snd c \<noteq> None"
        by (auto simp: replies_ok_def)
      then show ?thesis by (simp add: c Cons)
    qed
  qed
qed


lemma FetchEvent_fromContext_fresh:
  "\<not> priv_responded (rt_event (FetchEvent_fromContext h ctx))"
  "rt_reactions (FetchEvent_fromContext h ctx) = []"
  "rt_replies (FetchEvent_fromContext h ctx) = []"
  "rt_inv (FetchEvent_fromContext h ctx)"
  by (simp_all add: FetchEvent_fromContext_def FetchEvent_new_def rt_inv_def split: prod.splits)

lemma exchange0_fresh:
  "\<not> priv_responded (rt_event (exchange0 sink))"
  "rt_reactions (exchange0 sink) = []"
  "rt_replies (exchange0 sink) = []"
  "rt_console (exchange0 sink) = []"
  "rt_heap (exchange0 sink) = store0"
  "priv_respondCallback (rt_event (exchange0 sink)) = sink"
  by (simp_all add: exchange0_def FetchEvent_fromContext_def Request_fromContext_def
      Request_new_def FetchEvent_new_def ctx0_def Let_def split: prod.splits)

section \<open>The claims, continued\<close>

text \<open>
  C4. A Response made over a Buffer and then cloned: the clone's body is the very Buffer
  of the original, not a copy, so a byte written into that Buffer after the cloning is
  read through the clone. (\<open>Request.clone\<close> on the same bytes copies them: its clone
  has bytes of its own and still reads \<open>hello\<close>.)
\<close>

theorem Response_clone_shares_bytes:
  "(case Response_new store0 (Some (BodyBuffer 0)) None of
      (r, h1) \<Rightarrow>
        (case Response_clone h1 r of
           Inl e \<Rightarrow> False
         | Inr (c, h2) \<Rightarrow>
             res_body r = Some 0 \<and> res_body c = Some 0
             \<and> fst (Response_text h2 c) = Inr ''hello''
             \<and> fst (Response_text (Buffer_write h2 0 0 CHR ''J'') c) = Inr ''Jello''))
   \<and> (case Request_clone store0 request0 of
         Inl e \<Rightarrow> False
       | Inr (c, h2) \<Rightarrow>
           req_body request0 = Some 0 \<and> req_body c = Some 1
           \<and> fst (Request_text h2 c) = Inr ''hello''
           \<and> fst (Request_text (Buffer_write h2 0 0 CHR ''J'') c) = Inr ''hello'')"
  by code_simp

text \<open>
  C7, as amended. \<open>Response.json(data, init)\<close> throws what \<open>JSON.stringify\<close> throws.
  Otherwise it returns a Response whose header \<open>content-type\<close> is \<open>application/json\<close>,
  whatever \<open>init.headers\<close> holds, and whose status is that of \<open>init\<close> or 200; when
  \<open>JSON.stringify\<close> returns a text, this is the text of the body and \<open>json()\<close> on the
  Response is \<open>JSON.parse\<close> of it (hence \<open>data\<close> when \<open>JSON.parse\<close> inverts
  \<open>JSON.stringify\<close> on \<open>data\<close>); when it returns \<open>undefined\<close>, the Response has no body and
  its text is empty.
\<close>

theorem Response_json_static_result:
  "(JSON_stringify data = Inl e \<longrightarrow>
      Response_json_static JSON_stringify h data init = Inl e)
   \<and> (JSON_stringify data = Inr body \<longrightarrow>
        (\<exists>r h'. Response_json_static JSON_stringify h data init = Inr (r, h')
           \<and> Headers_get (res_headers r) ''content-type'' = Some ''application/json''
           \<and> res_status r = (case init of None \<Rightarrow> 200
                              | Some i \<Rightarrow> (case ri_status i of None \<Rightarrow> 200 | Some s \<Rightarrow> s))
           \<and> (case body of
                 None \<Rightarrow>
                   res_body r = None \<and> fst (Response_text h' r) = Inr []
                   \<and> fst (Response_json JSON_parse h' r) = JSON_parse []
               | Some s \<Rightarrow>
                   fst (Response_text h' r) = Inr s
                   \<and> fst (Response_json JSON_parse h' r) = JSON_parse s)))"
proof (intro conjI impI)
  assume "JSON_stringify data = Inl e"
  then show "Response_json_static JSON_stringify h data init = Inl e"
    by (simp add: Response_json_static_def)
next
  assume s: "JSON_stringify data = Inr body"
  let ?init = "Some \<lparr>ri_status = (case init of None \<Rightarrow> None | Some i \<Rightarrow> ri_status i),
                      ri_statusText = (case init of None \<Rightarrow> None | Some i \<Rightarrow> ri_statusText i),
                      ri_headers = Some (FromHeaders
                        (Headers_set (Headers_new (case init of None \<Rightarrow> None | Some i \<Rightarrow> ri_headers i))
                           ''content-type'' ''application/json''))\<rparr>"
  obtain r h' where n: "Response_new h (map_option BodyString body) ?init = (r, h')"
    by (cases "Response_new h (map_option BodyString body) ?init")
  have j: "Response_json_static JSON_stringify h data init = Inr (r, h')"
    using s n by (simp add: Response_json_static_def Let_def)
  have hd: "res_headers r = Headers_new (Some (FromHeaders
                        (Headers_set (Headers_new (case init of None \<Rightarrow> None | Some i \<Rightarrow> ri_headers i))
                           ''content-type'' ''application/json'')))"
    and st: "res_status r = (case init of None \<Rightarrow> 200
                              | Some i \<Rightarrow> (case ri_status i of None \<Rightarrow> 200 | Some s \<Rightarrow> s))"
    using n by (auto simp: Response_new_def Let_def split: prod.splits option.splits)
  have ct: "Headers_get (res_headers r) ''content-type'' = Some ''application/json''"
    by (simp only: hd Headers_get_json_headers)
  have b: "(case body of
                 None \<Rightarrow>
                   res_body r = None \<and> fst (Response_text h' r) = Inr []
                   \<and> fst (Response_json JSON_parse h' r) = JSON_parse []
               | Some s \<Rightarrow>
                   fst (Response_text h' r) = Inr s
                   \<and> fst (Response_json JSON_parse h' r) = JSON_parse s)"
  proof (cases body)
    case None
    with n have "res_body r = None" "\<not> res_bodyUsed r"
      using Response_new_None [of h ?init r h'] by simp_all
    then show ?thesis
      by (simp add: None Response_text_fresh Response_json_fresh)
  next
    case (Some t)
    with n have "res_body r = Some (next_addr h)" "cells h' (next_addr h) = t" "\<not> res_bodyUsed r"
      using Response_new_string [of h t ?init r h'] by simp_all
    then show ?thesis
      by (simp add: Some Response_text_fresh Response_json_fresh Buffer_toString_def)
  qed
  show "\<exists>r h'. Response_json_static JSON_stringify h data init = Inr (r, h')
           \<and> Headers_get (res_headers r) ''content-type'' = Some ''application/json''
           \<and> res_status r = (case init of None \<Rightarrow> 200
                              | Some i \<Rightarrow> (case ri_status i of None \<Rightarrow> 200 | Some s \<Rightarrow> s))
           \<and> (case body of
                 None \<Rightarrow>
                   res_body r = None \<and> fst (Response_text h' r) = Inr []
                   \<and> fst (Response_json JSON_parse h' r) = JSON_parse []
               | Some s \<Rightarrow>
                   fst (Response_text h' r) = Inr s
                   \<and> fst (Response_json JSON_parse h' r) = JSON_parse s)"
    using j ct st b by blast
qed

theorem Response_json_static_result_witness:
  "JSON_stringify_lit (JBool True) = Inr (Some ''true'')
   \<and> (\<exists>r h'. Response_json_static JSON_stringify_lit store0 (JBool True) init_text_plain = Inr (r, h')
         \<and> Headers_get (res_headers r) ''content-type'' = Some ''application/json''
         \<and> res_status r = 201
         \<and> fst (Response_text h' r) = Inr ''true''
         \<and> fst (Response_json JSON_parse_lit h' r) = Inr (JBool True))"
proof -
  have a: "JSON_stringify_lit (JBool True) = Inr (Some ''true'')"
    by (simp add: JSON_stringify_lit_def)
  have b: "JSON_parse_lit ''true'' = Inr (JBool True)"
    by (simp add: JSON_parse_lit_def)
  show ?thesis
    using a b
      Response_json_static_result [of JSON_stringify_lit "JBool True" "Error []" store0 init_text_plain
        "Some ''true''" JSON_parse_lit]
    by (simp add: init_text_plain_def)
qed

text \<open>
  C7, the claim as stated fails: for \<open>data = undefined\<close>, \<open>JSON.stringify\<close> returns
  \<open>undefined\<close>, the Response has no body, and the empty text does not parse.
\<close>

theorem Response_json_static_undefined:
  "(case Response_json_static JSON_stringify_lit store0 JUndefined None of
      Inl e \<Rightarrow> False
    | Inr (r, h) \<Rightarrow>
        Headers_get (res_headers r) ''content-type'' = Some ''application/json''
        \<and> res_body r = None
        \<and> fst (Response_text h r) = Inr []
        \<and> fst (Response_json JSON_parse_lit h r)
            = Inl (SyntaxError ''Unexpected end of JSON input''))"
  by code_simp

lemma never_throws_run_chain: "never_throws rt \<Longrightarrow> never_throws (snd (run_chain rt s))"
  by (simp add: never_throws_def run_chain_def on_fulfilled_def on_rejected_def invoke_sink_def
      Let_def split: settled.splits prod.splits option.splits)

lemma never_throws_step: "never_throws rt \<Longrightarrow> never_throws (step rt a)"
proof (cases a)
  case (CallRespondWith response)
  assume "never_throws rt"
  then show ?thesis
    by (simp add: CallRespondWith step_def respondWith_def never_throws_def)
next
  case RunReaction
  assume n: "never_throws rt"
  show ?thesis
  proof (cases "rt_reactions rt")
    case Nil
    with n show ?thesis by (simp add: RunReaction step_def)
  next
    case (Cons s rest)
    from n have "never_throws (rt\<lparr>rt_reactions := rest\<rparr>)"
      by (simp add: never_throws_def)
    then show ?thesis
      by (simp add: RunReaction step_def Cons never_throws_run_chain)
  qed
qed

lemma never_throws_run: "never_throws rt \<Longrightarrow> never_throws (run rt acts)"
  unfolding run_def by (induction acts arbitrary: rt) (simp_all add: never_throws_step)

lemma replies_ok_never_throws:
  "replies_ok rs \<Longrightarrow> list_all (\<lambda>c. snd c = None) rs \<Longrightarrow> length rs \<le> 1"
  by (cases rs) (auto simp: replies_ok_def)

lemma at_most_once_without_throw:
  assumes "rt_inv rt" "rt_replies rt = []"
    and "\<forall>replies response. priv_respondCallback (rt_event rt) replies response = None"
  shows "length (rt_replies (run rt acts)) \<le> 1"
proof -
  have "never_throws rt"
    using assms by (simp add: never_throws_def)
  then have "never_throws (run rt acts)"
    by (rule never_throws_run)
  then have "list_all (\<lambda>c. snd c = None) (rt_replies (run rt acts))"
    by (simp add: never_throws_def)
  moreover have "replies_ok (rt_replies (run rt acts))"
    using assms(1) by (intro rt_inv_replies_ok rt_inv_run)
  ultimately show ?thesis
    by (intro replies_ok_never_throws)
qed

text \<open>
  C1, as amended. From a new event, whatever calls of \<open>respondWith\<close> and runs of the
  event loop follow: the reply sink is invoked at most twice, at most one invocation returns
  normally, and there is a second invocation only when the first one threw; a sink that
  never throws is invoked at most once. The first call of \<open>respondWith\<close> does not throw,
  sets the flag in the call itself and invokes nothing; a call made right after it, and
  any call made later once the flag is set, throws \<open>respondWith() has already been called\<close>
  and leaves the state, and so the replies, as they were.
\<close>

theorem reply_sink_invocations:
  assumes "\<not> priv_responded (rt_event rt)" "rt_reactions rt = []" "rt_replies rt = []"
  shows "length (rt_replies (run rt acts)) \<le> 2
     \<and> length (filter (\<lambda>c. snd c = None) (rt_replies (run rt acts))) \<le> 1
     \<and> (length (rt_replies (run rt acts)) = 2 \<longrightarrow> snd (hd (rt_replies (run rt acts))) \<noteq> None)
     \<and> ((\<forall>replies response. priv_respondCallback (rt_event rt) replies response = None) \<longrightarrow>
          length (rt_replies (run rt acts)) \<le> 1)
     \<and> fst (respondWith rt response) = None
     \<and> priv_responded (rt_event (snd (respondWith rt response)))
     \<and> rt_replies (snd (respondWith rt response)) = []
     \<and> respondWith (snd (respondWith rt response)) response'
         = (Some (Error ''respondWith() has already been called''), snd (respondWith rt response))
     \<and> (priv_responded (rt_event (run rt acts)) \<longrightarrow>
          respondWith (run rt acts) response'
            = (Some (Error ''respondWith() has already been called''), run rt acts))"
proof -
  have i: "rt_inv rt"
    using assms by (simp add: rt_inv_def)
  then have "replies_ok (rt_replies (run rt acts))"
    by (intro rt_inv_replies_ok rt_inv_run)
  from replies_ok_bounds [OF this] respondWith_fresh [OF assms(1), of response] assms(3)
    at_most_once_without_throw [OF i assms(3), of acts]
  show ?thesis
    by (simp add: respondWith_responded)
qed

theorem reply_sink_invocations_witness:
  "\<not> priv_responded (rt_event (exchange0 sink_ok))
   \<and> rt_reactions (exchange0 sink_ok) = []
   \<and> rt_replies (exchange0 sink_ok) = []
   \<and> length (rt_replies (run (exchange0 sink_ok)
        [CallRespondWith (Some (Fulfilled response0)), CallRespondWith (Some (Rejected (Error ''late''))),
         RunReaction, RunReaction])) \<le> 1
   \<and> length (filter (\<lambda>c. snd c = None) (rt_replies (run (exchange0 sink_ok)
        [CallRespondWith (Some (Fulfilled response0)), CallRespondWith (Some (Rejected (Error ''late''))),
         RunReaction, RunReaction]))) \<le> 1
   \<and> respondWith (snd (respondWith (exchange0 sink_ok) (Some (Fulfilled response0))))
        (Some (Rejected (Error ''late'')))
       = (Some (Error ''respondWith() has already been called''),
          snd (respondWith (exchange0 sink_ok) (Some (Fulfilled response0))))"
proof -
  have s: "\<forall>replies response.
      priv_respondCallback (rt_event (exchange0 sink_ok)) replies response = None"
    by (simp add: exchange0_fresh sink_ok_def)
  show ?thesis
    using reply_sink_invocations [OF exchange0_fresh(1-3), of sink_ok
      "[CallRespondWith (Some (Fulfilled response0)), CallRespondWith (Some (Rejected (Error ''late''))),
         RunReaction, RunReaction]" "Some (Fulfilled response0)" "Some (Rejected (Error ''late''))"]
      exchange0_fresh(1-3) [of sink_ok] s
    by blast
qed

text \<open>
  C1, the claim as stated fails: with a sink that throws, \<open>respondWith\<close> of a Response
  invokes the sink with that Response and then, the \<open>catch\<close> callback finding
  \<open>responseSent\<close> false, once more with the 500 Response.
\<close>

theorem reply_sink_invoked_twice:
  "map (\<lambda>c. (js_status (fst c), snd c))
     (rt_replies (run (exchange0 sink_closed)
        [CallRespondWith (Some (Fulfilled response0)), RunReaction]))
   = [(200, Some (Error ''connection closed'')), (500, Some (Error ''connection closed''))]"
  by code_simp

text \<open>
  C2. On a new event, \<open>respondWith\<close> of a promise rejected with an error of message
  \<open>m\<close> invokes nothing in the call; when the reaction runs, the sink is invoked exactly once,
  with status 500, no headers and a body holding \<open>Internal Server Error: \<close> followed by
  \<open>m\<close>. If the sink throws, the error is written to the console and the chain's promise
  is fulfilled all the same: nothing is thrown further.
\<close>

theorem rejected_promise_reply:
  assumes "\<not> priv_responded (rt_event rt)" "rt_reactions rt = []" "rt_replies rt = []"
  shows "fst (respondWith rt (Some (Rejected e))) = None
     \<and> rt_replies (snd (respondWith rt (Some (Rejected e)))) = []
     \<and> (let rt2 = step (snd (respondWith rt (Some (Rejected e)))) RunReaction;
             js = \<lparr>js_status = 500, js_headers = [], js_body = Some (next_addr (rt_heap rt))\<rparr>;
             thrown = priv_respondCallback (rt_event rt) [] js
         in rt_replies rt2 = [(js, thrown)]
            \<and> cells (rt_heap rt2) (next_addr (rt_heap rt)) = ''Internal Server Error: '' @ message e
            \<and> rt_console rt2 =
                rt_console rt @ (case thrown of None \<Rightarrow> []
                                 | Some sendError \<Rightarrow> [(''Failed to send error response:'', sendError)])
            \<and> rt_reactions rt2 = []
            \<and> fst (run_chain rt (Rejected e)) = None
            \<and> snd (run_chain ((snd (respondWith rt (Some (Rejected e))))\<lparr>rt_reactions := []\<rparr>) (Rejected e)) = rt2)"
  using assms
  by (simp add: respondWith_def step_def run_chain_def on_rejected_def invoke_sink_def
      Response_new_def Buffer_from_def alloc_def Response_toJsResponse_def toJsHeaders_def
      Headers_new_def Let_def split: option.splits)

theorem rejected_promise_reply_witness:
  "\<not> priv_responded (rt_event (exchange0 sink_closed))
   \<and> rt_reactions (exchange0 sink_closed) = []
   \<and> rt_replies (exchange0 sink_closed) = []
   \<and> fst (respondWith (exchange0 sink_closed) (Some (Rejected (Error ''boom'')))) = None
   \<and> rt_replies (step (snd (respondWith (exchange0 sink_closed) (Some (Rejected (Error ''boom'')))))
        RunReaction)
       = [(\<lparr>js_status = 500, js_headers = [], js_body = Some 1\<rparr>, Some (Error ''connection closed''))]
   \<and> cells (rt_heap (step (snd (respondWith (exchange0 sink_closed) (Some (Rejected (Error ''boom'')))))
        RunReaction)) 1 = ''Internal Server Error: boom''
   \<and> rt_console (step (snd (respondWith (exchange0 sink_closed) (Some (Rejected (Error ''boom'')))))
        RunReaction)
       = [(''Failed to send error response:'', Error ''connection closed'')]"
  using rejected_promise_reply [OF exchange0_fresh(1-3), of sink_closed "Error ''boom''"]
    exchange0_fresh [of sink_closed]
  by (simp add: Let_def store0_def sink_closed_def)

section \<open>The dispatch\<close>

lemma call_all_names: "map fst (snd (call_all code hs w)) = hs"
  by (induction hs arbitrary: w) (simp_all add: Let_def)

lemma dispatch_loop_call_all:
  assumes frame: "\<forall>handler w. priv_handlers (snd (code handler w)) = priv_handlers w"
  shows "i \<le> length (priv_handlers w) \<Longrightarrow> length (priv_handlers w) - i \<le> fuel \<Longrightarrow>
    dispatch_loop fuel code i w called logged =
      Some (fst (call_all code (drop i (priv_handlers w)) w),
            called @ map fst (snd (call_all code (drop i (priv_handlers w)) w)),
            logged @ List.map_filter snd (snd (call_all code (drop i (priv_handlers w)) w)))"
proof (induction fuel arbitrary: i w called logged)
  case 0
  then have "i = length (priv_handlers w)" by simp
  then show ?case
    by (subst dispatch_loop.simps) (simp add: List.map_filter_simps)
next
  case (Suc fuel)
  show ?case
  proof (cases "i < length (priv_handlers w)")
    case False
    with Suc.prems have "i = length (priv_handlers w)" by simp
    then show ?thesis
      by (subst dispatch_loop.simps) (simp add: List.map_filter_simps)
  next
    case True
    let ?h = "priv_handlers w ! i"
    obtain thrown w' where c: "code ?h w = (thrown, w')"
      by (cases "code ?h w")
    have same: "priv_handlers w' = priv_handlers w"
      using frame [rule_format, of ?h w] c by simp
    have d: "drop i (priv_handlers w) = ?h # drop (Suc i) (priv_handlers w)"
      using True by (simp add: Cons_nth_drop_Suc)
    have ih: "dispatch_loop fuel code (Suc i) w' called' logged' =
      Some (fst (call_all code (drop (Suc i) (priv_handlers w)) w'),
            called' @ map fst (snd (call_all code (drop (Suc i) (priv_handlers w)) w')),
            logged' @ List.map_filter snd (snd (call_all code (drop (Suc i) (priv_handlers w)) w')))"
      for called' logged'
      using Suc.IH [of "Suc i" w' called' logged'] True Suc.prems same by simp
    show ?thesis
      using True c
      by (subst dispatch_loop.simps, cases thrown)
        (simp_all add: d ih Let_def List.map_filter_simps)
  qed
qed

lemma respond_handler_frame: "priv_handlers (snd (respond_handler s w)) = priv_handlers w"
  by (simp add: respond_handler_def split: prod.splits)

lemma code_throwing_frame:
  "\<forall>handler w. priv_handlers (snd (code_throwing handler w)) = priv_handlers w"
  by (simp add: code_throwing_def respond_handler_frame)

text \<open>
  When no handler changes the list of registered handlers while the exchange is
  dispatched, the loop ends (fuel for one step per handler is enough) having called every
  registered handler once, in the order of registration, each on the event as the handlers
  before it have left it; what a handler throws is caught and logged, in order, the loop
  goes on with the next handler, and the dispatch returns normally.
\<close>

lemma dispatch_calls_every_handler:
  assumes "\<forall>handler w. priv_handlers (snd (code handler w)) = priv_handlers w"
    and "length handlers \<le> fuel"
  shows "dispatch fuel code handlers h ctx =
      Some (fst (call_all code handlers
                   \<lparr>priv_handlers = handlers, w_exchange = FetchEvent_fromContext h ctx\<rparr>),
            handlers,
            List.map_filter snd
              (snd (call_all code handlers
                      \<lparr>priv_handlers = handlers, w_exchange = FetchEvent_fromContext h ctx\<rparr>)))"
  using dispatch_loop_call_all [OF assms(1), of 0
      "\<lparr>priv_handlers = handlers, w_exchange = FetchEvent_fromContext h ctx\<rparr>" fuel "[]" "[]"]
    assms(2)
  by (simp add: dispatch_def call_all_names)

lemma dispatch_calls_every_handler_instance:
  "length [0, 1 :: nat] \<le> 2
   \<and> map_option (\<lambda>r. (fst (snd r), snd (snd r),
                       priv_responded (rt_event (w_exchange (fst r)))))
        (dispatch 2 code_throwing [0, 1] store0 (ctx0 sink_ok))
       = Some ([0, 1], [Error ''Handler error''], True)"
proof -
  have l: "length [0, 1 :: nat] \<le> 2" by simp
  have c: "call_all code_throwing [0, 1]
             \<lparr>priv_handlers = [0, 1], w_exchange = FetchEvent_fromContext store0 (ctx0 sink_ok)\<rparr>
           = (\<lparr>priv_handlers = [0, 1],
               w_exchange = snd (respondWith (FetchEvent_fromContext store0 (ctx0 sink_ok))
                                   (Some (Fulfilled response0)))\<rparr>,
              [(0, Some (Error ''Handler error'')), (1, None)])"
    using exchange0_fresh(1) [of sink_ok]
    by (simp add: code_throwing_def respond_handler_def respondWith_def exchange0_def Let_def
        split: prod.splits)
  note t = dispatch_calls_every_handler [OF code_throwing_frame l, of store0 "ctx0 sink_ok"]
  show ?thesis
    unfolding t c
    using exchange0_fresh(1) [of sink_ok]
    by (simp add: List.map_filter_simps respondWith_def exchange0_def)
qed

text \<open>
  C5. The handlers 0 and 1 are registered, and handler 0 removes itself when called (a
  handler meant to run once). The loop calls handler 0, reads the shortened list at index
  1, finds nothing there and ends: handler 1, registered before, during and after the
  dispatch, is not called, and the event is left without a response.
\<close>

theorem dispatch_skips_handler:
  "map_option (\<lambda>r. (priv_handlers (fst r), fst (snd r), snd (snd r),
                     priv_responded (rt_event (w_exchange (fst r)))))
     (dispatch 2 code_once [0, 1] store0 (ctx0 sink_ok))
   = Some ([1], [0], [], False)"
  by code_simp

end
